theory Spec2Isabelle
  imports Complex_Main "HOL-Library.Multiset" "HOL-Library.Sublist"
begin

section \<open>The collision dashboard: data model\<close>

text \<open>
  \<^verbatim>\<open>main.py\<close> is a script of pandas calls over one table, \<^verbatim>\<open>data\<close>. A table is
  modelled as the list of its column labels and the list of its rows in table order;
  a row carries its index label (pandas keeps it through every filter, projection and
  sort) and one cell per column.

  A cell is missing (\<open>NaN\<close>, which also stands for \<^verbatim>\<open>NaT\<close> and \<^verbatim>\<open>None\<close>), a number, a
  text, or a timestamp. A finite float is denoted by the real number it represents: the
  operations modelled here only compare and count numbers, they never do arithmetic on
  them. A timestamp is the number of nanoseconds since the epoch, as in
  \<^verbatim>\<open>datetime64[ns]\<close>.
\<close>

datatype cell = NaN | Num real | Str string | Time int

datatype error =
    KeyError string
  | NameError string
  | TypeError
  | AttributeError
  | ValueError

type_synonym row = "nat \<times> cell list"

record frame =
  columns :: "string list"
  rows :: "row list"

text \<open>A row shorter than the header reads as missing in the columns it lacks.\<close>

definition cell_at :: "cell list \<Rightarrow> nat \<Rightarrow> cell" where
  "cell_at cs p = (if p < length cs then cs ! p else NaN)"

fun isna :: "cell \<Rightarrow> bool" where
  "isna NaN = True"
| "isna (Num v) = False"
| "isna (Str s) = False"
| "isna (Time t) = False"

text \<open>All positions of a label in a header, left to right (labels may repeat).\<close>

definition positions :: "string list \<Rightarrow> string \<Rightarrow> nat list" where
  "positions cols c = filter (\<lambda>p. cols ! p = c) [0..<length cols]"

section \<open>The pandas operations the script calls\<close>

subsection \<open>\<^verbatim>\<open>data.query("col >= @t")\<close>\<close>

text \<open>
  The names of the expression are resolved against the columns of the table before
  anything is compared: pandas 2.2 raises \<^verbatim>\<open>TypeError\<close> there as soon as any label of
  the table repeats (earlier releases took the last column of a repeated label). An
  unknown column name is an undefined variable of the expression. The comparison is
  element-wise. A missing value compares false with every number; a text or a
  timestamp cannot be compared with a number and the whole query raises \<^verbatim>\<open>TypeError\<close>.
\<close>

fun comparable :: "cell \<Rightarrow> bool" where
  "comparable NaN = True"
| "comparable (Num v) = True"
| "comparable (Str s) = False"
| "comparable (Time t) = False"

fun cell_ge :: "cell \<Rightarrow> real \<Rightarrow> bool" where
  "cell_ge (Num v) t = (t \<le> v)"
| "cell_ge NaN t = False"
| "cell_ge (Str s) t = False"
| "cell_ge (Time u) t = False"

definition query_pos :: "string list \<Rightarrow> string \<Rightarrow> nat option" where
  "query_pos cols c = (case positions cols c of [p] \<Rightarrow> Some p | _ \<Rightarrow> None)"

definition query_ge :: "frame \<Rightarrow> string \<Rightarrow> real \<Rightarrow> error + frame" where
  "query_ge d c t =
     (if \<not> distinct (columns d) then Inl TypeError
      else
        (case query_pos (columns d) c of
           None \<Rightarrow> Inl (NameError c)
         | Some q \<Rightarrow>
             if list_all (\<lambda>r. comparable (cell_at (snd r) q)) (rows d)
             then Inr (d\<lparr>rows := filter (\<lambda>r. cell_ge (cell_at (snd r) q) t) (rows d)\<rparr>)
             else Inl TypeError))"

subsection \<open>\<^verbatim>\<open>data[[c1, c2]]\<close>\<close>

text \<open>
  Selecting a list of labels keeps every column carrying one of them, in the order of
  the list; a label the table lacks raises \<^verbatim>\<open>KeyError\<close>.
\<close>

fun select_positions :: "string list \<Rightarrow> string list \<Rightarrow> error + nat list" where
  "select_positions cols [] = Inr []"
| "select_positions cols (c # cs) =
     (case positions cols c of
        [] \<Rightarrow> Inl (KeyError c)
      | p # ps \<Rightarrow>
          (case select_positions cols cs of
             Inl e \<Rightarrow> Inl e
           | Inr qs \<Rightarrow> Inr ((p # ps) @ qs)))"

definition project :: "nat list \<Rightarrow> row \<Rightarrow> row" where
  "project ps r = (fst r, map (cell_at (snd r)) ps)"

definition getitem_cols :: "frame \<Rightarrow> string list \<Rightarrow> error + frame" where
  "getitem_cols d cs =
     (case select_positions (columns d) cs of
        Inl e \<Rightarrow> Inl e
      | Inr ps \<Rightarrow>
          Inr \<lparr>columns = map (\<lambda>p. columns d ! p) ps, rows = map (project ps) (rows d)\<rparr>)"

subsection \<open>\<^verbatim>\<open>dropna\<close>\<close>

text \<open>\<^verbatim>\<open>dropna(how="any")\<close> keeps the rows without a missing cell in any column.\<close>

definition row_cells :: "frame \<Rightarrow> row \<Rightarrow> cell list" where
  "row_cells d r = map (cell_at (snd r)) [0..<length (columns d)]"

definition dropna_any :: "frame \<Rightarrow> frame" where
  "dropna_any d = d\<lparr>rows := filter (\<lambda>r. list_all (\<lambda>x. \<not> isna x) (row_cells d r)) (rows d)\<rparr>"


subsection \<open>\<^verbatim>\<open>sort_values(by=col, ascending=False)\<close>\<close>

text \<open>
  The script never passes \<^verbatim>\<open>kind\<close>, so the sorting routine is the library's default.
  It is a parameter here: \<open>kind key xs\<close> arranges \<open>xs\<close> by ascending \<open>key\<close>. pandas
  sorts downwards by reversing the rows whose key is present, sorting them upwards with
  that routine and reversing the outcome; the rows whose key is missing follow, in table
  order. A label that repeats raises \<^verbatim>\<open>ValueError\<close>, one that is absent \<^verbatim>\<open>KeyError\<close>.
  Only numeric keys are modelled (the script sorts a column it has just compared with a
  number); any other key is reported as \<^verbatim>\<open>TypeError\<close>.
\<close>

type_synonym 'a sorter = "('a \<Rightarrow> real) \<Rightarrow> 'a list \<Rightarrow> 'a list"

definition sorts_asc :: "'a sorter \<Rightarrow> bool" where
  "sorts_asc kind \<longleftrightarrow>
     (\<forall>key xs. mset (kind key xs) = mset xs \<and> sorted (map key (kind key xs)))"

definition nargsort_desc :: "'a sorter \<Rightarrow> ('a \<Rightarrow> real) \<Rightarrow> 'a list \<Rightarrow> 'a list" where
  "nargsort_desc kind key xs = rev (kind key (rev xs))"

fun num_of :: "cell \<Rightarrow> real" where
  "num_of (Num v) = v"
| "num_of NaN = 0"
| "num_of (Str s) = 0"
| "num_of (Time t) = 0"

definition sort_key_at :: "nat \<Rightarrow> row \<Rightarrow> real" where
  "sort_key_at p r = num_of (cell_at (snd r) p)"

definition sort_values_desc :: "row sorter \<Rightarrow> frame \<Rightarrow> string \<Rightarrow> error + frame" where
  "sort_values_desc kind d c =
     (case positions (columns d) c of
        [] \<Rightarrow> Inl (KeyError c)
      | [p] \<Rightarrow>
          if list_all (\<lambda>r. comparable (cell_at (snd r) p)) (rows d)
          then Inr (d\<lparr>rows :=
                 nargsort_desc kind (sort_key_at p)
                   (filter (\<lambda>r. \<not> isna (cell_at (snd r) p)) (rows d))
                 @ filter (\<lambda>r. isna (cell_at (snd r) p)) (rows d)\<rparr>)
          else Inl TypeError
      | p # p' # ps \<Rightarrow> Inl ValueError)"

subsection \<open>\<^verbatim>\<open>data[col].dt\<close>, \<^verbatim>\<open>.hour\<close> and \<^verbatim>\<open>.minute\<close>\<close>

text \<open>
  \<^verbatim>\<open>data[col]\<close> raises \<^verbatim>\<open>KeyError\<close> for an absent label and is a table, not a column,
  for a repeated one; the \<^verbatim>\<open>.dt\<close> accessor raises \<^verbatim>\<open>AttributeError\<close> on a table and on
  a column that holds anything but timestamps and \<^verbatim>\<open>NaT\<close> (a column of missing
  values only is taken for one of timestamps). The components of \<^verbatim>\<open>NaT\<close> are
  missing.
\<close>

fun datetimelike :: "cell \<Rightarrow> bool" where
  "datetimelike (Time t) = True"
| "datetimelike NaN = True"
| "datetimelike (Num v) = False"
| "datetimelike (Str s) = False"

definition dt_column :: "frame \<Rightarrow> string \<Rightarrow> error + nat" where
  "dt_column d c =
     (case positions (columns d) c of
        [] \<Rightarrow> Inl (KeyError c)
      | [p] \<Rightarrow>
          if list_all (\<lambda>r. datetimelike (cell_at (snd r) p)) (rows d)
          then Inr p else Inl AttributeError
      | p # p' # ps \<Rightarrow> Inl AttributeError)"

definition hour_of :: "int \<Rightarrow> int" where
  "hour_of t = (t div 3600000000000) mod 24"

definition minute_of :: "int \<Rightarrow> int" where
  "minute_of t = (t div 60000000000) mod 60"

fun dt_hour :: "cell \<Rightarrow> int option" where
  "dt_hour (Time t) = Some (hour_of t)"
| "dt_hour NaN = None"
| "dt_hour (Num v) = None"
| "dt_hour (Str s) = None"

fun dt_minute :: "cell \<Rightarrow> int option" where
  "dt_minute (Time t) = Some (minute_of t)"
| "dt_minute NaN = None"
| "dt_minute (Num v) = None"
| "dt_minute (Str s) = None"

subsection \<open>\<^verbatim>\<open>np.histogram(values, bins=nb, range=(lo, hi))\<close>\<close>

text \<open>
  \<open>nb\<close> bins of equal width between \<open>lo\<close> and \<open>hi\<close>; every bin is closed on the left
  and open on the right, except the last one, which is closed on both sides. Missing
  values and values outside the range are not counted.
\<close>

definition bin_edge :: "nat \<Rightarrow> real \<Rightarrow> real \<Rightarrow> nat \<Rightarrow> real" where
  "bin_edge nb lo hi i = lo + (hi - lo) * real i / real nb"

definition in_bin :: "nat \<Rightarrow> real \<Rightarrow> real \<Rightarrow> nat \<Rightarrow> real option \<Rightarrow> bool" where
  "in_bin nb lo hi i x =
     (case x of
        None \<Rightarrow> False
      | Some v \<Rightarrow>
          bin_edge nb lo hi i \<le> v
          \<and> (v < bin_edge nb lo hi (Suc i) \<or> (Suc i = nb \<and> v \<le> hi)))"

definition np_histogram :: "real option list \<Rightarrow> nat \<Rightarrow> real \<Rightarrow> real \<Rightarrow> nat list" where
  "np_histogram xs nb lo hi = map (\<lambda>i. length (filter (in_bin nb lo hi i) xs)) [0..<nb]"

subsection \<open>\<^verbatim>\<open>stack()\<close> and \<^verbatim>\<open>value_counts()\<close>\<close>

text \<open>
  \<^verbatim>\<open>stack\<close> lays the cells of a table out as one column, row after row and, inside a
  row, column after column; each value is labelled with its row and its column;
  missing cells are left out. \<^verbatim>\<open>value_counts\<close> counts every distinct value that is not
  missing and sorts the counts downwards with the same sorting routine as
  \<^verbatim>\<open>sort_values\<close>; before the sort the values stand in order of first appearance.
\<close>

definition stack :: "frame \<Rightarrow> ((nat \<times> string) \<times> cell) list" where
  "stack d =
     concat (map (\<lambda>r. filter (\<lambda>e. \<not> isna (snd e))
                         (map (\<lambda>p. ((fst r, columns d ! p), cell_at (snd r) p))
                              [0..<length (columns d)]))
                 (rows d))"

definition unique :: "'a list \<Rightarrow> 'a list" where
  "unique xs = rev (remdups (rev xs))"

definition value_counts :: "(cell \<times> nat) sorter \<Rightarrow> cell list \<Rightarrow> (cell \<times> nat) list" where
  "value_counts kind xs =
     (let vs = filter (\<lambda>x. \<not> isna x) xs
      in nargsort_desc kind (\<lambda>e. real (snd e)) (map (\<lambda>v. (v, count_list vs v)) (unique vs)))"

subsection \<open>\<^verbatim>\<open>read_csv\<close> with \<^verbatim>\<open>parse_dates=[['crash_date', 'crash_time']]\<close>\<close>

text \<open>
  The argument \<open>raw\<close> is the file as the parser reads it without date handling (a
  file that is absent or cannot be parsed never gets this far): its header, in which
  the parser has made repeated labels unique, and its typed cells.

  A named date column that the file lacks raises \<^verbatim>\<open>ValueError\<close>, whether or not the
  file has rows. A file without data rows is returned as it is, its two date columns
  unmerged. Otherwise the two columns are replaced by one, put in front and labelled
  with their names joined by an underscore; a file that already has a column of that
  name raises \<^verbatim>\<open>ValueError\<close>. The cells of the new column are the two texts of each
  row joined, and the column as a whole is converted to timestamps; when the
  conversion fails the column stays as the joined texts.

  What the library does inside is a parameter: how it joins two cells into a text, how
  it converts a column of texts (the answer, if any, has one timestamp per text), and
  how \<^verbatim>\<open>str.lower\<close> treats a text that is not ASCII.
\<close>

record library =
  concat_date_cols :: "cell \<Rightarrow> cell \<Rightarrow> string"
  to_datetime :: "string list \<Rightarrow> int list option"
  unicode_lower :: "string \<Rightarrow> string"


definition date_column :: "library \<Rightarrow> string list \<Rightarrow> cell list" where
  "date_column L strs =
     (case to_datetime L strs of
        Some ts \<Rightarrow> if length ts = length strs then map Time ts else map Str strs
      | None \<Rightarrow> map Str strs)"



subsection \<open>\<^verbatim>\<open>rename\<close>\<close>






section \<open>The script\<close>

subsection \<open>Loading (lines 8--18)\<close>

definition DATE_TIME :: string where
  "DATE_TIME = ''date_time''"


subsection \<open>Where are the most people injured (lines 29--30)\<close>

text \<open>
  \<^verbatim>\<open>data.query("injured_persons >= @injured_people")[['latitude', 'longitude']].dropna(how="any")\<close>,
  with \<^verbatim>\<open>injured_people\<close> the integer of the slider. The query is what the
  specification calls \<^verbatim>\<open>filterByMinInjured\<close>; the map is drawn from its coordinates.
\<close>

definition injured_query :: "frame \<Rightarrow> int \<Rightarrow> error + frame" where
  "injured_query d injured_people = query_ge d ''injured_persons'' (real_of_int injured_people)"

definition injured_map :: "frame \<Rightarrow> int \<Rightarrow> error + frame" where
  "injured_map d injured_people =
     (case injured_query d injured_people of
        Inl e \<Rightarrow> Inl e
      | Inr q \<Rightarrow>
          (case getitem_cols q [''latitude'', ''longitude''] of
             Inl e \<Rightarrow> Inl e
           | Inr g \<Rightarrow> Inr (dropna_any g)))"

subsection \<open>Collisions during a given hour (lines 34--35)\<close>

text \<open>
  \<^verbatim>\<open>data[data[DATE_TIME].dt.hour == hour]\<close>; the specification calls this
  \<^verbatim>\<open>filterByHour\<close>. A row whose hour is missing fails the comparison.
\<close>

definition data_by_hour :: "frame \<Rightarrow> int \<Rightarrow> error + frame" where
  "data_by_hour d hour =
     (case dt_column d DATE_TIME of
        Inl e \<Rightarrow> Inl e
      | Inr p \<Rightarrow> Inr (d\<lparr>rows := filter (\<lambda>r. dt_hour (cell_at (snd r) p) = Some hour) (rows d)\<rparr>))"

subsection \<open>Breakdown by minute (lines 64--65)\<close>

text \<open>
  \<^verbatim>\<open>np.histogram(filtered[DATE_TIME].dt.minute, bins=60, range=(0, 60))[0]\<close>, where
  \<^verbatim>\<open>filtered\<close> is the table of the chosen hour; the specification calls this
  \<^verbatim>\<open>minuteHistogram\<close>.
\<close>

definition hist :: "frame \<Rightarrow> error + nat list" where
  "hist filtered =
     (case dt_column filtered DATE_TIME of
        Inl e \<Rightarrow> Inl e
      | Inr p \<Rightarrow>
          Inr (np_histogram
                 (map (\<lambda>r. map_option real_of_int (dt_minute (cell_at (snd r) p))) (rows filtered))
                 60 0 60))"

subsection \<open>Top dangerous streets by affected class (lines 72--82)\<close>

text \<open>
  The three branches hold the same expression over three columns:
  \<^verbatim>\<open>data.query("col >= 1")[["on_street_name", col]].sort_values(by=col, ascending=False).dropna(how="any")[:5]\<close>.
  The length of the slice is the parameter \<open>n\<close>; the script uses 5. \<open>select\<close> is the
  label chosen in the select box; the last branch is an \<^verbatim>\<open>else\<close>. The specification
  calls this \<^verbatim>\<open>topStreetsByCategory\<close>.
\<close>

definition street_ranking :: "row sorter \<Rightarrow> frame \<Rightarrow> string \<Rightarrow> nat \<Rightarrow> error + frame" where
  "street_ranking kind d c n =
     (case query_ge d c 1 of
        Inl e \<Rightarrow> Inl e
      | Inr q \<Rightarrow>
          (case getitem_cols q [''on_street_name'', c] of
             Inl e \<Rightarrow> Inl e
           | Inr g \<Rightarrow>
               (case sort_values_desc kind g c of
                  Inl e \<Rightarrow> Inl e
                | Inr s \<Rightarrow> Inr ((dropna_any s)\<lparr>rows := take n (rows (dropna_any s))\<rparr>))))"

definition top_streets :: "row sorter \<Rightarrow> frame \<Rightarrow> string \<Rightarrow> nat \<Rightarrow> error + frame" where
  "top_streets kind d select n =
     (if select = ''Pedestrians'' then street_ranking kind d ''number_of_pedestrians_injured'' n
      else if select = ''Cyclists'' then street_ranking kind d ''number_of_cyclist_injured'' n
      else street_ranking kind d ''number_of_motorist_injured'' n)"

text \<open>The column a label of the select box stands for, as the branches choose it.\<close>

definition injury_column :: "string \<Rightarrow> string" where
  "injury_column select =
     (if select = ''Pedestrians'' then ''number_of_pedestrians_injured''
      else if select = ''Cyclists'' then ''number_of_cyclist_injured''
      else ''number_of_motorist_injured'')"

subsection \<open>Contributing factors and vehicle types (lines 127--128, 143--144)\<close>

text \<open>
  \<^verbatim>\<open>data[factor_columns].stack().value_counts().head(20)\<close> and
  \<^verbatim>\<open>data[vehicle_type_columns].stack().value_counts().head(10)\<close>; the specification
  calls them \<^verbatim>\<open>topFactors\<close> and \<^verbatim>\<open>topVehicleTypes\<close>.
\<close>

definition factor_columns :: "string list" where
  "factor_columns = [''contributing_factor_vehicle_1'', ''contributing_factor_vehicle_2'']"

definition vehicle_type_columns :: "string list" where
  "vehicle_type_columns = [''vehicle_type_code_1'', ''vehicle_type_code_2'']"

definition factors :: "(cell \<times> nat) sorter \<Rightarrow> frame \<Rightarrow> error + (cell \<times> nat) list" where
  "factors kind d =
     (case getitem_cols d factor_columns of
        Inl e \<Rightarrow> Inl e
      | Inr g \<Rightarrow> Inr (take 20 (value_counts kind (map snd (stack g)))))"

definition vehicle_types :: "(cell \<times> nat) sorter \<Rightarrow> frame \<Rightarrow> error + (cell \<times> nat) list" where
  "vehicle_types kind d =
     (case getitem_cols d vehicle_type_columns of
        Inl e \<Rightarrow> Inl e
      | Inr g \<Rightarrow> Inr (take 10 (value_counts kind (map snd (stack g)))))"

section \<open>Example tables\<close>

text \<open>Small tables on which the theorems below are instantiated.\<close>

definition ex_injured :: frame where
  "ex_injured =
     \<lparr>columns = [''latitude'', ''longitude'', ''injured_persons''],
      rows = [(0, [Num 40.7, Num (-73.9), Num 0]),
              (1, [Num 40.6, Num (-74), Num 2]),
              (2, [Num 40.5, Num (-73.8), NaN]),
              (3, [Num 40.8, Num (-73.7), Num 5])]\<rparr>"

definition ex_streets :: frame where
  "ex_streets =
     \<lparr>columns = [''on_street_name'', ''number_of_pedestrians_injured'',
                 ''number_of_cyclist_injured'', ''number_of_motorist_injured''],
      rows = [(0, [Str ''BROADWAY'', Num 1, Num 0, Num 0]),
              (1, [NaN, Num 3, Num 0, Num 1]),
              (2, [Str ''5 AVENUE'', Num 2, Num 1, Num 0]),
              (3, [Str ''CANAL STREET'', Num 0, Num 0, Num 2]),
              (4, [Str ''BOWERY'', NaN, Num 0, Num 4])]\<rparr>"




definition ex_loaded :: frame where
  "ex_loaded =
     \<lparr>columns = [''date_time'', ''latitude'', ''longitude'', ''borough''],
      rows = [(0, [Time 1577873100000000000, Num 40.7, Num (-73.9), Str ''BROOKLYN'']),
              (2, [Time 1577887200000000000, Num 40.6, Num (-74), NaN])]\<rparr>"





definition ex_vehicles :: frame where
  "ex_vehicles =
     \<lparr>columns = [''contributing_factor_vehicle_1'', ''contributing_factor_vehicle_2'',
                 ''vehicle_type_code_1'', ''vehicle_type_code_2''],
      rows = [(0, [Str ''Unspecified'', NaN, Str ''Sedan'', Str ''Taxi'']),
              (1, [NaN, NaN, NaN, Str ''Sedan'']),
              (2, [Str ''Driver Inattention'', Str ''Unspecified'', Str ''Sedan'', NaN])]\<rparr>"

section \<open>Facts about the operations\<close>

subsection \<open>Labels, selections and filters\<close>

lemma set_positions: "set (positions cols c) = {p. p < length cols \<and> cols ! p = c}"
  by (auto simp: positions_def)

lemma positions_single:
  assumes "positions cols c = [p]" and "i < length cols" and "cols ! i = c"
  shows "i = p"
proof -
  have "i \<in> set (positions cols c)" using assms(2,3) by (simp add: set_positions)
  then show ?thesis by (simp add: assms(1))
qed

lemma rows_dropna_any:
  "rows (dropna_any g) = filter (\<lambda>r. list_all (\<lambda>x. \<not> isna x) (row_cells g r)) (rows g)"
  by (simp add: dropna_any_def)

lemma getitem_cols_Inr:
  assumes "getitem_cols d cs = Inr g"
  shows "\<exists>ps. select_positions (columns d) cs = Inr ps
           \<and> columns g = map (\<lambda>p. columns d ! p) ps \<and> rows g = map (project ps) (rows d)"
  using assms by (auto simp: getitem_cols_def split: sum.splits)

lemma query_ge_Inr:
  assumes "query_ge d c t = Inr q"
  shows "\<exists>p. query_pos (columns d) c = Some p
           \<and> list_all (\<lambda>r. comparable (cell_at (snd r) p)) (rows d)
           \<and> columns q = columns d
           \<and> rows q = filter (\<lambda>r. cell_ge (cell_at (snd r) p) t) (rows d)"
  using assms by (auto simp: query_ge_def split: option.splits if_splits)

lemma query_ge_distinct:
  assumes "query_ge d c t = Inr q"
  shows "distinct (columns d)"
  using assms by (auto simp: query_ge_def split: if_splits)

lemma cell_ge_Num: "cell_ge x t \<Longrightarrow> \<exists>v. x = Num v \<and> t \<le> v"
  by (cases x) auto

lemma fst_project: "fst (project ps r) = fst r"
  by (simp add: project_def)

lemma select_positions_two:
  assumes "select_positions cols [a, b] = Inr ps"
  shows "positions cols a \<noteq> [] \<and> positions cols b \<noteq> [] \<and> ps = positions cols a @ positions cols b"
  using assms by (auto split: list.splits)

lemma cell_at_project:
  "p < length ps \<Longrightarrow> cell_at (snd (project ps r)) p = cell_at (snd r) (ps ! p)"
  by (simp add: project_def cell_at_def)

lemma positions_label: "p \<in> set (positions cols c) \<Longrightarrow> p < length cols \<and> cols ! p = c"
  by (simp add: set_positions)



lemma isna_iff: "isna x \<longleftrightarrow> x = NaN"
  by (cases x) simp_all

lemma project_cells:
  "map (cell_at (snd (project ps r))) [0..<length ps] = map (cell_at (snd r)) ps"
  by (rule nth_equalityI) (simp_all add: cell_at_project)

subsection \<open>Sorting downwards\<close>

lemma set_nargsort_desc:
  assumes "sorts_asc kind"
  shows "set (nargsort_desc kind key xs) = set xs"
proof -
  from assms have "mset (kind key (rev xs)) = mset (rev xs)"
    by (simp add: sorts_asc_def)
  then have "set (kind key (rev xs)) = set (rev xs)"
    by (rule mset_eq_setD)
  then show ?thesis by (simp add: nargsort_desc_def)
qed

lemma sorted_nargsort_desc:
  assumes "sorts_asc kind"
  shows "sorted_wrt (\<lambda>a b. key b \<le> key a) (nargsort_desc kind key xs)"
proof -
  from assms have "sorted (map key (kind key (rev xs)))"
    by (simp add: sorts_asc_def)
  then have "sorted_wrt (\<lambda>a b. key a \<le> key b) (kind key (rev xs))"
    by (simp add: sorted_map)
  then show ?thesis
    by (simp add: nargsort_desc_def sorted_wrt_rev)
qed

lemma sort_values_desc_Inr:
  assumes "sort_values_desc kind g c = Inr s"
  shows "\<exists>p. positions (columns g) c = [p] \<and> columns s = columns g
           \<and> rows s = nargsort_desc kind (sort_key_at p)
                        (filter (\<lambda>r. \<not> isna (cell_at (snd r) p)) (rows g))
                      @ filter (\<lambda>r. isna (cell_at (snd r) p)) (rows g)"
  using assms by (auto simp: sort_values_desc_def split: list.splits if_splits)

lemma mset_nargsort_desc:
  assumes "sorts_asc kind"
  shows "mset (nargsort_desc kind key xs) = mset xs"
  using assms by (simp add: sorts_asc_def nargsort_desc_def)

text \<open>
  Insertion sort by key, \<open>sort_key\<close>, is one routine that meets the contract of a sorting
  routine; the theorems below are instantiated with it.
\<close>

lemma sorts_asc_sort_key: "sorts_asc sort_key"
  by (simp add: sorts_asc_def)

text \<open>
  When the routine keeps rows of equal key in the order it was given them, sorting
  downwards keeps them in table order. Nothing in the script selects such a routine.
\<close>

lemma nargsort_desc_keeps_ties:
  assumes "\<And>k ys. filter (\<lambda>y. key y = k) (kind key ys) = filter (\<lambda>y. key y = k) ys"
  shows "filter (\<lambda>y. key y = k) (nargsort_desc kind key xs) = filter (\<lambda>y. key y = k) xs"
proof -
  have "filter (\<lambda>y. key y = k) (nargsort_desc kind key xs)
      = rev (filter (\<lambda>y. key y = k) (kind key (rev xs)))"
    by (simp add: nargsort_desc_def rev_filter)
  also have "\<dots> = rev (filter (\<lambda>y. key y = k) (rev xs))"
    by (simp add: assms)
  also have "\<dots> = filter (\<lambda>y. key y = k) xs"
    by (simp add: rev_filter)
  finally show ?thesis .
qed

text \<open>The counted column of a two-label selection that sorts without error.\<close>

lemma selected_count_column:
  assumes ps: "select_positions cols [a, c] = Inr ps"
    and p: "positions (map (\<lambda>i. cols ! i) ps) c = [p]"
  shows "positions cols c = [ps ! p] \<and> p = length (positions cols a) \<and> p < length ps"
proof -
  from select_positions_two [OF ps] have na: "positions cols a \<noteq> []"
    and nc: "positions cols c \<noteq> []"
    and eq: "ps = positions cols a @ positions cols c" by simp_all
  let ?A = "positions cols a" and ?C = "positions cols c"
  have lab: "cols ! (?C ! j) = c" if "j < length ?C" for j
    using that positions_label [of "?C ! j" cols c] by simp
  have at: "length ?A + j = p" if j: "j < length ?C" for j
  proof (rule positions_single [OF p])
    show "length ?A + j < length (map (\<lambda>i. cols ! i) ps)" using j by (simp add: eq)
    show "map (\<lambda>i. cols ! i) ps ! (length ?A + j) = c"
      using j lab [OF j] by (simp add: eq nth_append)
  qed
  from nc have 0: "0 < length ?C" by simp
  have "length ?C = 1"
  proof (rule ccontr)
    assume "length ?C \<noteq> 1"
    with 0 have 1: "1 < length ?C" by linarith
    from at [OF 0] at [OF 1] show False by simp
  qed
  then obtain pc where C: "?C = [pc]" by (cases ?C) auto
  from at [OF 0] have pl: "p = length ?A" by simp
  then have "ps ! p = pc" by (simp add: eq C)
  with C pl show ?thesis by (simp add: eq)
qed

lemma query_pos_single: "positions cols c = [p] \<Longrightarrow> query_pos cols c = Some p"
  by (simp add: query_pos_def)

lemma no_na_row_cells:
  assumes "list_all (\<lambda>x. \<not> isna x) (row_cells d r)" and "p < length (columns d)"
  shows "\<not> isna (cell_at (snd r) p)"
  using assms by (simp add: row_cells_def list_all_iff)

subsection \<open>Timestamps and bins\<close>

lemma dt_column_Inr:
  assumes "dt_column d c = Inr p"
  shows "positions (columns d) c = [p] \<and> list_all (\<lambda>r. datetimelike (cell_at (snd r) p)) (rows d)"
  using assms by (auto simp: dt_column_def split: list.splits if_splits)

lemma data_by_hour_Inr:
  assumes "data_by_hour d h = Inr b"
  shows "\<exists>p. dt_column d DATE_TIME = Inr p \<and> columns b = columns d
           \<and> rows b = filter (\<lambda>r. dt_hour (cell_at (snd r) p) = Some h) (rows d)"
  using assms by (auto simp: data_by_hour_def split: sum.splits)

lemma dt_hour_Some: "dt_hour x = Some h \<Longrightarrow> \<exists>t. x = Time t \<and> hour_of t = h"
  by (cases x) auto

lemma minute_of_range: "0 \<le> minute_of t \<and> minute_of t < 60"
  by (simp add: minute_of_def)


lemma bin_edge_unit: "bin_edge 60 0 60 i = real i"
  by (simp add: bin_edge_def)

lemma in_bin_minute:
  assumes "0 \<le> m" and "m < 60" and "i < 60"
  shows "in_bin 60 0 60 i (Some (real_of_int m)) \<longleftrightarrow> m = int i"
proof -
  have a: "real i \<le> real_of_int m \<longleftrightarrow> int i \<le> m"
    by (metis of_int_le_iff of_int_of_nat_eq)
  have b: "real_of_int m < real (Suc i) \<longleftrightarrow> m < int (Suc i)"
    by (metis of_int_less_iff of_int_of_nat_eq)
  have c: "real_of_int m \<le> 60 \<longleftrightarrow> m \<le> 60"
    by (metis of_int_le_iff of_int_numeral)
  show ?thesis
    unfolding in_bin_def bin_edge_unit option.case a b c
    using assms by auto
qed

lemma sum_indicator_upt:
  assumes "k < n"
  shows "(\<Sum>i\<leftarrow>[0..<n]. if k = i then 1 else 0) = (1::nat)"
proof -
  have "(\<Sum>i\<leftarrow>[0..<n]. if k = i then 1 else 0) = (\<Sum>i = 0..<n. if k = i then 1 else (0::nat))"
    by (simp add: interv_sum_list_conv_sum_set_nat)
  also have "\<dots> = 1" using assms by simp
  finally show ?thesis .
qed

lemma sum_length_filter_key:
  assumes "\<forall>x\<in>set xs. key x < n"
  shows "(\<Sum>i\<leftarrow>[0..<n]. length (filter (\<lambda>x. key x = i) xs)) = length xs"
  using assms
proof (induction xs)
  case Nil
  then show ?case by simp
next
  case (Cons x xs)
  have "(\<Sum>i\<leftarrow>[0..<n]. length (filter (\<lambda>y. key y = i) (x # xs)))
      = (\<Sum>i\<leftarrow>[0..<n]. (if key x = i then 1 else 0) + length (filter (\<lambda>y. key y = i) xs))"
    by (rule arg_cong [where f = sum_list]) simp
  also have "\<dots> = (\<Sum>i\<leftarrow>[0..<n]. if key x = i then 1 else 0)
                  + (\<Sum>i\<leftarrow>[0..<n]. length (filter (\<lambda>y. key y = i) xs))"
    by (simp add: sum_list_addf)
  also have "\<dots> = 1 + length xs"
    using Cons by (simp add: sum_indicator_upt)
  finally show ?case by simp
qed

subsection \<open>Lower-case labels and the loader\<close>








lemma date_column_kinds:
  "(\<exists>ts. to_datetime L strs = Some ts \<and> length ts = length strs
         \<and> date_column L strs = map Time ts)
   \<or> ((\<forall>ts. to_datetime L strs = Some ts \<longrightarrow> length ts \<noteq> length strs)
         \<and> date_column L strs = map Str strs)"
  by (auto simp: date_column_def split: option.splits)

















subsection \<open>Stacking and counting\<close>

lemma set_unique: "set (unique xs) = set xs"
  by (simp add: unique_def)

lemma distinct_unique: "distinct (unique xs)"
  by (simp add: unique_def)

lemma stack_values:
  "map snd (stack g) =
     concat (map (\<lambda>r. filter (\<lambda>x. \<not> isna x) (map (cell_at (snd r)) [0..<length (columns g)]))
                 (rows g))"
proof -
  have "map snd (filter (\<lambda>e. \<not> isna (snd e)) (map (\<lambda>p. ((fst r, columns g ! p), cell_at (snd r) p)) ns))
      = filter (\<lambda>x. \<not> isna x) (map (cell_at (snd r)) ns)" for r :: row and ns
    by (induction ns) simp_all
  then show ?thesis
    by (simp add: stack_def map_concat comp_def)
qed

lemma stack_getitem_values:
  assumes "getitem_cols d cs = Inr g"
  shows "\<exists>ps. select_positions (columns d) cs = Inr ps
           \<and> map snd (stack g) =
               concat (map (\<lambda>r. filter (\<lambda>x. \<not> isna x) (map (cell_at (snd r)) ps)) (rows d))"
proof -
  from getitem_cols_Inr [OF assms] obtain ps where
    ps: "select_positions (columns d) cs = Inr ps"
    and cg: "columns g = map (\<lambda>p. columns d ! p) ps"
    and rg: "rows g = map (project ps) (rows d)" by blast
  have "map snd (stack g) =
      concat (map (\<lambda>r. filter (\<lambda>x. \<not> isna x) (map (cell_at (snd r)) ps)) (rows d))"
    by (simp add: stack_values cg rg comp_def project_cells)
  with ps show ?thesis by blast
qed

lemma count_list_filter: "count_list (filter P xs) v = (if P v then count_list xs v else 0)"
  by (induction xs) auto

lemma count_list_map_positions:
  "count_list (map f ps) v = length (filter (\<lambda>p. f p = v) ps)"
  by (induction ps) auto

lemma count_present_cells:
  assumes "v \<noteq> NaN"
  shows "count_list (concat (map (\<lambda>r. filter (\<lambda>x. \<not> isna x) (map (cell_at (snd r)) ps)) rs)) v
       = (\<Sum>r\<leftarrow>rs. length (filter (\<lambda>p. cell_at (snd r) p = v) ps))"
  using assms
  by (simp add: count_list_concat comp_def count_list_filter isna_iff count_list_map_positions)

lemma value_counts_entries:
  assumes kind: "sorts_asc kind"
  shows "distinct (map fst (value_counts kind xs))"
    and "(v, k) \<in> set (value_counts kind xs)
           \<longleftrightarrow> v \<noteq> NaN \<and> 0 < k \<and> k = count_list xs v"
    and "sorted_wrt (\<lambda>a b. snd b \<le> snd a) (value_counts kind xs)"
proof -
  define vs where "vs = filter (\<lambda>x. \<not> isna x) xs"
  define tab where "tab = map (\<lambda>v. (v, count_list vs v)) (unique vs)"
  have vc: "value_counts kind xs = nargsort_desc kind (\<lambda>e. real (snd e)) tab"
    by (simp add: value_counts_def vs_def tab_def Let_def)
  have "mset (map fst (value_counts kind xs)) = mset (map fst tab)"
    unfolding vc mset_map by (simp add: mset_nargsort_desc [OF kind])
  moreover have "distinct (map fst tab)"
    by (simp add: tab_def comp_def distinct_unique)
  ultimately show "distinct (map fst (value_counts kind xs))"
    using mset_eq_imp_distinct_iff by blast
  have cnt: "count_list vs v = (if v = NaN then 0 else count_list xs v)"
    by (simp add: vs_def count_list_filter isna_iff)
  have "(v, k) \<in> set (value_counts kind xs) \<longleftrightarrow> v \<in> set vs \<and> k = count_list vs v"
    unfolding vc set_nargsort_desc [OF kind] by (auto simp: tab_def set_unique)
  also have "v \<in> set vs \<longleftrightarrow> 0 < count_list vs v"
    using count_list_0_iff [of vs v] by auto
  also have "0 < count_list vs v \<and> k = count_list vs v
           \<longleftrightarrow> v \<noteq> NaN \<and> 0 < k \<and> k = count_list xs v"
    by (auto simp: cnt)
  finally show "(v, k) \<in> set (value_counts kind xs)
           \<longleftrightarrow> v \<noteq> NaN \<and> 0 < k \<and> k = count_list xs v" .
  have "sorted_wrt (\<lambda>a b. real (snd b) \<le> real (snd a)) (value_counts kind xs)"
    unfolding vc by (rule sorted_nargsort_desc [OF kind])
  then show "sorted_wrt (\<lambda>a b. snd b \<le> snd a) (value_counts kind xs)" by simp
qed

lemma stacked_value_counts:
  assumes kind: "sorts_asc kind" and g: "getitem_cols d cs = Inr g"
  shows "\<exists>ps. select_positions (columns d) cs = Inr ps
           \<and> distinct (map fst (value_counts kind (map snd (stack g))))
           \<and> sorted_wrt (\<lambda>a b. snd b \<le> snd a) (value_counts kind (map snd (stack g)))
           \<and> (\<forall>v k. (v, k) \<in> set (value_counts kind (map snd (stack g))) \<longleftrightarrow>
                  v \<noteq> NaN \<and> 0 < k
                \<and> k = (\<Sum>r\<leftarrow>rows d. length (filter (\<lambda>p. cell_at (snd r) p = v) ps)))"
proof -
  from stack_getitem_values [OF g] obtain ps where
    ps: "select_positions (columns d) cs = Inr ps"
    and vals: "map snd (stack g) =
               concat (map (\<lambda>r. filter (\<lambda>x. \<not> isna x) (map (cell_at (snd r)) ps)) (rows d))"
    by blast
  have "(v, k) \<in> set (value_counts kind (map snd (stack g))) \<longleftrightarrow>
                  v \<noteq> NaN \<and> 0 < k
                \<and> k = (\<Sum>r\<leftarrow>rows d. length (filter (\<lambda>p. cell_at (snd r) p = v) ps))" for v k
    unfolding value_counts_entries(2) [OF kind] vals
    using count_present_cells [of v ps "rows d"] by auto
  with ps value_counts_entries(1,3) [OF kind] show ?thesis by blast
qed

subsection \<open>The street ranking\<close>

lemma street_ranking_Inr:
  assumes run: "street_ranking kind d c n = Inr out"
  shows "\<exists>p ps g. select_positions (columns d) [''on_street_name'', c] = Inr ps
           \<and> positions (columns out) c = [p] \<and> p < length ps
           \<and> columns out = map (\<lambda>i. columns d ! i) ps
           \<and> g = map (project ps) (filter (\<lambda>r. cell_ge (cell_at (snd r) (ps ! p)) 1) (rows d))
           \<and> (\<forall>r\<in>set g. \<exists>v. cell_at (snd r) p = Num v \<and> 1 \<le> v)
           \<and> rows out = take n (filter (\<lambda>r. list_all (\<lambda>x. \<not> isna x)
                                     (map (cell_at (snd r)) [0..<length ps]))
                               (nargsort_desc kind (sort_key_at p) g))"
proof -
  from run obtain q g s where
    q: "query_ge d c 1 = Inr q"
    and g: "getitem_cols q [''on_street_name'', c] = Inr g"
    and s: "sort_values_desc kind g c = Inr s"
    and out: "out = (dropna_any s)\<lparr>rows := take n (rows (dropna_any s))\<rparr>"
    by (auto simp: street_ranking_def split: sum.splits)
  from query_ge_Inr [OF q] obtain qp where
    qp: "query_pos (columns d) c = Some qp"
    and cq: "columns q = columns d"
    and rq: "rows q = filter (\<lambda>r. cell_ge (cell_at (snd r) qp) 1) (rows d)"
    by blast
  from getitem_cols_Inr [OF g] cq obtain ps where
    ps: "select_positions (columns d) [''on_street_name'', c] = Inr ps"
    and cg: "columns g = map (\<lambda>p. columns d ! p) ps"
    and rg: "rows g = map (project ps) (rows q)"
    by auto
  from sort_values_desc_Inr [OF s] obtain p where
    p: "positions (columns g) c = [p]"
    and cs: "columns s = columns g"
    and rs: "rows s = nargsort_desc kind (sort_key_at p)
                        (filter (\<lambda>r. \<not> isna (cell_at (snd r) p)) (rows g))
                      @ filter (\<lambda>r. isna (cell_at (snd r) p)) (rows g)"
    by blast
  from selected_count_column [OF ps p [unfolded cg]] have
    pc: "positions (columns d) c = [ps ! p]"
    and plt: "p < length ps" by simp_all
  from qp query_pos_single [OF pc] have qp_eq: "qp = ps ! p" by simp
  have num: "\<exists>v. cell_at (snd r) p = Num v \<and> 1 \<le> v" if "r \<in> set (rows g)" for r
  proof -
    from that obtain r0 where r0: "r0 \<in> set (rows q)" and r: "r = project ps r0"
      by (auto simp: rg)
    from r0 have "cell_ge (cell_at (snd r0) qp) 1" by (simp add: rq)
    then show ?thesis
      using cell_ge_Num [of "cell_at (snd r0) qp" 1] by (simp add: r cell_at_project [OF plt] qp_eq)
  qed
  then have nn: "\<forall>r\<in>set (rows g). \<not> isna (cell_at (snd r) p)" by fastforce
  have rs': "rows s = nargsort_desc kind (sort_key_at p) (rows g)"
    using nn by (simp add: rs)
  have cols_out: "columns out = columns g"
    by (simp add: out cs dropna_any_def)
  have 1: "positions (columns out) c = [p]" by (simp add: cols_out p)
  have 2: "columns out = map (\<lambda>i. columns d ! i) ps" by (simp add: cols_out cg)
  have 3: "rows g = map (project ps) (filter (\<lambda>r. cell_ge (cell_at (snd r) (ps ! p)) 1) (rows d))"
    by (simp add: rg rq qp_eq)
  have 4: "rows out = take n (filter (\<lambda>r. list_all (\<lambda>x. \<not> isna x)
                                     (map (cell_at (snd r)) [0..<length ps]))
                               (nargsort_desc kind (sort_key_at p) (rows g)))"
    by (simp add: out rows_dropna_any row_cells_def cs cg rs')
  from ps 1 plt 2 3 num 4 show ?thesis by blast
qed

lemma street_ranking_props:
  assumes kind: "sorts_asc kind"
    and run: "street_ranking kind d c n = Inr out"
  shows "\<exists>p ps. positions (columns out) c = [p]
           \<and> positions (columns out) ''on_street_name'' \<noteq> []
           \<and> select_positions (columns d) [''on_street_name'', c] = Inr ps
           \<and> set (rows out) \<subseteq> project ps ` set (rows d)
           \<and> length (rows out) \<le> n
           \<and> sorted_wrt (\<lambda>a b. sort_key_at p b \<le> sort_key_at p a) (rows out)
           \<and> (\<forall>r\<in>set (rows out).
                 (\<exists>v. cell_at (snd r) p = Num v \<and> 1 \<le> v)
               \<and> (\<forall>s\<in>set (positions (columns out) ''on_street_name''). \<not> isna (cell_at (snd r) s)))"
proof -
  from street_ranking_Inr [OF run] obtain p ps g where
    ps: "select_positions (columns d) [''on_street_name'', c] = Inr ps"
    and p: "positions (columns out) c = [p]"
    and plt: "p < length ps"
    and co: "columns out = map (\<lambda>i. columns d ! i) ps"
    and g: "g = map (project ps) (filter (\<lambda>r. cell_ge (cell_at (snd r) (ps ! p)) 1) (rows d))"
    and num: "\<forall>r\<in>set g. \<exists>v. cell_at (snd r) p = Num v \<and> 1 \<le> v"
    and ro: "rows out = take n (filter (\<lambda>r. list_all (\<lambda>x. \<not> isna x)
                                     (map (cell_at (snd r)) [0..<length ps]))
                               (nargsort_desc kind (sort_key_at p) g))"
    by blast
  have sub: "set (rows out) \<subseteq> set g"
  proof
    fix r assume "r \<in> set (rows out)"
    then have "r \<in> set (nargsort_desc kind (sort_key_at p) g)"
      unfolding ro by (auto dest: in_set_takeD)
    then show "r \<in> set g" by (simp add: set_nargsort_desc [OF kind])
  qed
  have 2: "positions (columns out) ''on_street_name'' \<noteq> []"
  proof -
    from select_positions_two [OF ps] have na: "positions (columns d) ''on_street_name'' \<noteq> []"
      and eq: "ps = positions (columns d) ''on_street_name'' @ positions (columns d) c"
      by simp_all
    let ?A = "positions (columns d) ''on_street_name''"
    from na have "?A ! 0 \<in> set ?A" by simp
    then have "columns d ! (?A ! 0) = ''on_street_name''"
      by (simp add: set_positions)
    moreover have "ps ! 0 = ?A ! 0" using na by (simp add: eq nth_append)
    moreover have "0 < length ps" using plt by (cases ps) simp_all
    ultimately have "0 \<in> set (positions (columns out) ''on_street_name'')"
      by (simp add: set_positions co nth_map)
    then show ?thesis by auto
  qed
  have 3: "set (rows out) \<subseteq> project ps ` set (rows d)"
    using sub by (auto simp: g)
  have 4: "length (rows out) \<le> n" by (simp add: ro)
  have 5: "sorted_wrt (\<lambda>a b. sort_key_at p b \<le> sort_key_at p a) (rows out)"
    unfolding ro
    by (intro sorted_wrt_take sorted_wrt_filter sorted_nargsort_desc kind)
  have 6: "\<not> isna (cell_at (snd r) i)"
    if r: "r \<in> set (rows out)" and i: "i \<in> set (positions (columns out) ''on_street_name'')" for r i
  proof -
    from r have "list_all (\<lambda>x. \<not> isna x) (map (cell_at (snd r)) [0..<length ps])"
      by (auto simp: ro dest: in_set_takeD)
    moreover from i have "i < length ps"
      by (simp add: set_positions co)
    ultimately show ?thesis by (simp add: list_all_iff)
  qed
  from p 2 ps 3 4 5 6 num sub show ?thesis by blast
qed

text \<open>
  With a routine that keeps rows of equal key in order, the rows of the ranking that
  share a count stand in the order they have in the table.
\<close>

lemma street_ranking_keeps_ties:
  assumes stable: "\<And>k ys. filter (\<lambda>y. sort_key_at p y = k) (kind (sort_key_at p) ys)
                           = filter (\<lambda>y. sort_key_at p y = k) ys"
    and run: "street_ranking kind d c n = Inr out"
    and p: "positions (columns out) c = [p]"
  shows "\<exists>ps. select_positions (columns d) [''on_street_name'', c] = Inr ps
           \<and> subseq (filter (\<lambda>r. sort_key_at p r = k) (rows out)) (map (project ps) (rows d))"
proof -
  from street_ranking_Inr [OF run] p obtain ps g where
    ps: "select_positions (columns d) [''on_street_name'', c] = Inr ps"
    and g: "g = map (project ps) (filter (\<lambda>r. cell_ge (cell_at (snd r) (ps ! p)) 1) (rows d))"
    and ro: "rows out = take n (filter (\<lambda>r. list_all (\<lambda>x. \<not> isna x)
                                     (map (cell_at (snd r)) [0..<length ps]))
                               (nargsort_desc kind (sort_key_at p) g))"
    by auto
  let ?full = "\<lambda>r. list_all (\<lambda>x. \<not> isna x) (map (cell_at (snd r)) [0..<length ps])"
  let ?tie = "\<lambda>r. sort_key_at p r = k"
  have "subseq (rows out) (filter ?full (nargsort_desc kind (sort_key_at p) g))"
    unfolding ro by (metis append_take_drop_id prefixI prefix_imp_subseq)
  then have "subseq (filter ?tie (rows out))
                    (filter ?tie (filter ?full (nargsort_desc kind (sort_key_at p) g)))"
    by (rule subseq_filter)
  also have "filter ?tie (filter ?full (nargsort_desc kind (sort_key_at p) g))
           = filter ?full (filter ?tie (nargsort_desc kind (sort_key_at p) g))"
    by (simp add: conj_commute)
  also have "\<dots> = filter ?full (filter ?tie g)"
    by (simp only: nargsort_desc_keeps_ties [of "sort_key_at p" kind, OF stable])
  also have "subseq \<dots> g"
    by (meson subseq_filter_left subseq_order.trans)
  also have "subseq g (map (project ps) (rows d))"
    unfolding g by (simp add: subseq_map)
  finally show ?thesis using ps by blast
qed

lemma top_streets_column:
  "top_streets kind d select n = street_ranking kind d (injury_column select) n"
  by (simp add: top_streets_def injury_column_def)

section \<open>Properties of the views\<close>

subsection \<open>Minimum number of injured persons\<close>

text \<open>
  Claim C1. For every table and every threshold (in particular every threshold from 0
  to 19), each row the query returns has a number of injured persons that is present
  and at least the threshold; the rows returned are rows of the table, in the order
  they have in the table; and the points of the map are the coordinates of a
  subsequence of these rows.
\<close>

theorem injured_query_sound:
  assumes "injured_query d t = Inr tab"
  shows "columns tab = columns d
       \<and> subseq (rows tab) (rows d)
       \<and> (\<exists>q. query_pos (columns d) ''injured_persons'' = Some q
              \<and> rows tab = filter (\<lambda>r. cell_ge (cell_at (snd r) q) (real_of_int t)) (rows d)
              \<and> (\<forall>r\<in>set (rows tab). \<exists>v. cell_at (snd r) q = Num v \<and> real_of_int t \<le> v))
       \<and> (\<forall>out. injured_map d t = Inr out \<longrightarrow>
              (\<exists>ps sub. select_positions (columns d) [''latitude'', ''longitude''] = Inr ps
                 \<and> subseq sub (rows tab)
                 \<and> sub = filter (\<lambda>r. list_all (\<lambda>p. \<not> isna (cell_at (snd r) p)) ps) (rows tab)
                 \<and> rows out = map (project ps) sub))"
proof -
  from assms have qf: "query_ge d ''injured_persons'' (real_of_int t) = Inr tab"
    by (simp add: injured_query_def)
  from query_ge_Inr [OF qf] obtain q where
    q: "query_pos (columns d) ''injured_persons'' = Some q"
    and cq: "columns tab = columns d"
    and rq: "rows tab = filter (\<lambda>r. cell_ge (cell_at (snd r) q) (real_of_int t)) (rows d)"
    by blast
  have sub: "subseq (rows tab) (rows d)" by (simp add: rq)
  have ge: "\<forall>r\<in>set (rows tab). \<exists>v. cell_at (snd r) q = Num v \<and> real_of_int t \<le> v"
    by (auto simp: rq dest: cell_ge_Num)
  have pts: "\<exists>ps sub. select_positions (columns d) [''latitude'', ''longitude''] = Inr ps
                 \<and> subseq sub (rows tab)
                 \<and> sub = filter (\<lambda>r. list_all (\<lambda>p. \<not> isna (cell_at (snd r) p)) ps) (rows tab)
                 \<and> rows out = map (project ps) sub"
    if "injured_map d t = Inr out" for out
  proof -
    from that assms obtain g where
      g: "getitem_cols tab [''latitude'', ''longitude''] = Inr g"
      and out: "out = dropna_any g"
      by (auto simp: injured_map_def split: sum.splits)
    from getitem_cols_Inr [OF g] cq obtain ps where
      ps: "select_positions (columns d) [''latitude'', ''longitude''] = Inr ps"
      and cg: "columns g = map (\<lambda>p. columns d ! p) ps"
      and rg: "rows g = map (project ps) (rows tab)"
      by auto
    have keep: "list_all (\<lambda>x. \<not> isna x) (row_cells g (project ps r))
              \<longleftrightarrow> list_all (\<lambda>p. \<not> isna (cell_at (snd r) p)) ps" for r
      by (simp add: row_cells_def cg project_cells list.pred_map comp_def)
    have "rows out = map (project ps)
            (filter (\<lambda>r. list_all (\<lambda>p. \<not> isna (cell_at (snd r) p)) ps) (rows tab))"
      by (simp add: out rows_dropna_any rg filter_map comp_def keep)
    with ps show ?thesis by simp
  qed
  from cq sub q rq ge pts show ?thesis by blast
qed

theorem injured_query_sound_witness:
  "injured_query ex_injured 2 =
     Inr \<lparr>columns = [''latitude'', ''longitude'', ''injured_persons''],
          rows = [(1, [Num 40.6, Num (-74), Num 2]), (3, [Num 40.8, Num (-73.7), Num 5])]\<rparr>
   \<and> injured_map ex_injured 2 =
     Inr \<lparr>columns = [''latitude'', ''longitude''],
          rows = [(1, [Num 40.6, Num (-74)]), (3, [Num 40.8, Num (-73.7)])]\<rparr>
   \<and> subseq [(1, [Num 40.6, Num (-74), Num 2]), (3, [Num 40.8, Num (-73.7), Num 5])]
        (rows ex_injured)"
proof -
  have h: "injured_query ex_injured 2 =
     Inr \<lparr>columns = [''latitude'', ''longitude'', ''injured_persons''],
          rows = [(1, [Num 40.6, Num (-74), Num 2]), (3, [Num 40.8, Num (-73.7), Num 5])]\<rparr>"
    by code_simp
  have m: "injured_map ex_injured 2 =
     Inr \<lparr>columns = [''latitude'', ''longitude''],
          rows = [(1, [Num 40.6, Num (-74)]), (3, [Num 40.8, Num (-73.7)])]\<rparr>"
    by code_simp
  from injured_query_sound [OF h] h m show ?thesis by simp
qed

text \<open>
  Claim C9. On a table whose labels do not repeat and whose column of injured persons
  holds numbers and missing values, the query succeeds for every threshold, zero
  included, and returns no row whose number of injured persons is missing; every point
  of the map comes from a row where that number is present.
\<close>

theorem missing_injured_never_returned:
  assumes cols: "distinct (columns d)"
    and q: "query_pos (columns d) ''injured_persons'' = Some q"
    and num: "list_all (\<lambda>r. comparable (cell_at (snd r) q)) (rows d)"
  shows "\<exists>tab. injured_query d t = Inr tab
           \<and> (\<forall>r\<in>set (rows d). cell_at (snd r) q = NaN \<longrightarrow> r \<notin> set (rows tab))
           \<and> (\<forall>out. injured_map d t = Inr out \<longrightarrow>
                 (\<forall>i\<in>fst ` set (rows out).
                     \<exists>r\<in>set (rows d). fst r = i \<and> cell_at (snd r) q \<noteq> NaN))"
proof -
  define tab where
    "tab = d\<lparr>rows := filter (\<lambda>r. cell_ge (cell_at (snd r) q) (real_of_int t)) (rows d)\<rparr>"
  have 1: "injured_query d t = Inr tab"
    using cols q num by (simp add: injured_query_def query_ge_def tab_def)
  have rt: "rows tab = filter (\<lambda>r. cell_ge (cell_at (snd r) q) (real_of_int t)) (rows d)"
    by (simp add: tab_def)
  have 2: "\<forall>r\<in>set (rows d). cell_at (snd r) q = NaN \<longrightarrow> r \<notin> set (rows tab)"
    by (auto simp: rt)
  have 3: "\<forall>i\<in>fst ` set (rows out). \<exists>r\<in>set (rows d). fst r = i \<and> cell_at (snd r) q \<noteq> NaN"
    if "injured_map d t = Inr out" for out
  proof
    fix i assume i: "i \<in> fst ` set (rows out)"
    from that 1 obtain g where
      g: "getitem_cols tab [''latitude'', ''longitude''] = Inr g"
      and out: "out = dropna_any g"
      by (auto simp: injured_map_def split: sum.splits)
    from getitem_cols_Inr [OF g] obtain ps where
      rg: "rows g = map (project ps) (rows tab)" by blast
    from i obtain r where r: "r \<in> set (rows tab)" and ri: "fst r = i"
      by (auto simp: out rows_dropna_any rg fst_project)
    from r have "r \<in> set (rows d)" and "cell_ge (cell_at (snd r) q) (real_of_int t)"
      by (simp_all add: rt)
    with ri show "\<exists>r\<in>set (rows d). fst r = i \<and> cell_at (snd r) q \<noteq> NaN"
      by (auto dest: cell_ge_Num)
  qed
  from 1 2 3 show ?thesis by blast
qed

theorem missing_injured_never_returned_witness:
  "distinct (columns ex_injured)
   \<and> query_pos (columns ex_injured) ''injured_persons'' = Some 2
   \<and> list_all (\<lambda>r. comparable (cell_at (snd r) 2)) (rows ex_injured)
   \<and> cell_at (snd (2, [Num 40.5, Num (-73.8), NaN])) 2 = NaN
   \<and> injured_map ex_injured 0 =
       Inr \<lparr>columns = [''latitude'', ''longitude''],
            rows = [(0, [Num 40.7, Num (-73.9)]), (1, [Num 40.6, Num (-74)]),
                    (3, [Num 40.8, Num (-73.7)])]\<rparr>
   \<and> (\<exists>tab. injured_query ex_injured 0 = Inr tab
         \<and> (2, [Num 40.5, Num (-73.8), NaN]) \<notin> set (rows tab))"
proof -
  have cols: "distinct (columns ex_injured)"
    by code_simp
  have q: "query_pos (columns ex_injured) ''injured_persons'' = Some 2"
    by code_simp
  have num: "list_all (\<lambda>r. comparable (cell_at (snd r) 2)) (rows ex_injured)"
    by code_simp
  have na: "cell_at (snd (2, [Num 40.5, Num (-73.8), NaN])) 2 = NaN"
    by (simp add: cell_at_def)
  have m: "injured_map ex_injured 0 =
       Inr \<lparr>columns = [''latitude'', ''longitude''],
            rows = [(0, [Num 40.7, Num (-73.9)]), (1, [Num 40.6, Num (-74)]),
                    (3, [Num 40.8, Num (-73.7)])]\<rparr>"
    by code_simp
  have mem: "(2, [Num 40.5, Num (-73.8), NaN]) \<in> set (rows ex_injured)"
    by (simp add: ex_injured_def)
  from missing_injured_never_returned [OF cols q num, of 0] obtain tab where
    "injured_query ex_injured 0 = Inr tab"
    and "\<forall>r\<in>set (rows ex_injured). cell_at (snd r) 2 = NaN \<longrightarrow> r \<notin> set (rows tab)"
    by blast
  with mem na have "\<exists>tab. injured_query ex_injured 0 = Inr tab
         \<and> (2, [Num 40.5, Num (-73.8), NaN]) \<notin> set (rows tab)" by blast
  with cols q num na m show ?thesis by blast
qed

subsection \<open>Streets by affected class\<close>

text \<open>
  Claim C2, as amended. The script has no error for an unknown label: every label other
  than \<^verbatim>\<open>Pedestrians\<close> and \<^verbatim>\<open>Cyclists\<close> takes the last branch and gets the ranking of the
  motorists column, the one \<^verbatim>\<open>Motorists\<close> gets. (The select box offers the three
  labels only.)
\<close>

theorem top_streets_else_branch:
  assumes "select \<noteq> ''Pedestrians''" and "select \<noteq> ''Cyclists''"
  shows "top_streets kind d select n = street_ranking kind d ''number_of_motorist_injured'' n
       \<and> top_streets kind d select n = top_streets kind d ''Motorists'' n"
  using assms by (simp add: top_streets_def)

theorem top_streets_else_branch_witness:
  "''Trucks'' \<noteq> ''Pedestrians'' \<and> ''Trucks'' \<noteq> ''Cyclists''
   \<and> top_streets sort_key ex_streets ''Trucks'' 5
       = street_ranking sort_key ex_streets ''number_of_motorist_injured'' 5
   \<and> top_streets sort_key ex_streets ''Trucks'' 5
       = top_streets sort_key ex_streets ''Motorists'' 5"
proof -
  have a: "''Trucks'' \<noteq> ''Pedestrians''" and b: "''Trucks'' \<noteq> ''Cyclists''"
    by simp_all
  from top_streets_else_branch [OF a b, of sort_key ex_streets 5] a b
  show ?thesis by blast
qed

text \<open>
  The claim as first stated asks for an error on a label outside the three. On the
  example table the label \<^verbatim>\<open>Trucks\<close> yields the ranking of the motorists column.
\<close>

theorem top_streets_unlisted_label:
  "top_streets sort_key ex_streets ''Trucks'' 5 =
     Inr \<lparr>columns = [''on_street_name'', ''number_of_motorist_injured''],
          rows = [(4, [Str ''BOWERY'', Num 4]), (3, [Str ''CANAL STREET'', Num 2])]\<rparr>"
  by code_simp

text \<open>
  Claim C5. Whatever routine sorts, for every table, every label of the select box and
  every length \<open>n\<close> of the slice: the ranking has at most \<open>n\<close> rows, its counts do not
  increase from one row to the next, every count is present and at least 1, and no
  street name is missing. Each of its rows is the street and count of a row of the
  table.
\<close>

theorem top_streets_ranked:
  assumes kind: "sorts_asc kind"
    and run: "top_streets kind d select n = Inr out"
  shows "\<exists>p ps. positions (columns out) (injury_column select) = [p]
           \<and> positions (columns out) ''on_street_name'' \<noteq> []
           \<and> select_positions (columns d) [''on_street_name'', injury_column select] = Inr ps
           \<and> set (rows out) \<subseteq> project ps ` set (rows d)
           \<and> length (rows out) \<le> n
           \<and> sorted_wrt (\<lambda>a b. sort_key_at p b \<le> sort_key_at p a) (rows out)
           \<and> (\<forall>r\<in>set (rows out).
                 (\<exists>v. cell_at (snd r) p = Num v \<and> 1 \<le> v)
               \<and> (\<forall>s\<in>set (positions (columns out) ''on_street_name''). \<not> isna (cell_at (snd r) s)))"
proof -
  from run have "street_ranking kind d (injury_column select) n = Inr out"
    by (simp add: top_streets_column)
  from street_ranking_props [OF kind this] show ?thesis .
qed

theorem top_streets_ranked_witness:
  "sorts_asc (sort_key :: row sorter)
   \<and> top_streets sort_key ex_streets ''Pedestrians'' 5 =
       Inr \<lparr>columns = [''on_street_name'', ''number_of_pedestrians_injured''],
            rows = [(2, [Str ''5 AVENUE'', Num 2]), (0, [Str ''BROADWAY'', Num 1])]\<rparr>
   \<and> (\<exists>p. positions [''on_street_name'', ''number_of_pedestrians_injured'']
              (injury_column ''Pedestrians'') = [p]
          \<and> sorted_wrt (\<lambda>a b. sort_key_at p b \<le> sort_key_at p a)
              [(2, [Str ''5 AVENUE'', Num 2]), (0, [Str ''BROADWAY'', Num 1])])"
proof -
  have k: "sorts_asc (sort_key :: row sorter)"
    by (rule sorts_asc_sort_key)
  have h: "top_streets sort_key ex_streets ''Pedestrians'' 5 =
       Inr \<lparr>columns = [''on_street_name'', ''number_of_pedestrians_injured''],
            rows = [(2, [Str ''5 AVENUE'', Num 2]), (0, [Str ''BROADWAY'', Num 1])]\<rparr>"
    by code_simp
  from top_streets_ranked [OF k h] have
    "\<exists>p. positions [''on_street_name'', ''number_of_pedestrians_injured'']
              (injury_column ''Pedestrians'') = [p]
          \<and> sorted_wrt (\<lambda>a b. sort_key_at p b \<le> sort_key_at p a)
              [(2, [Str ''5 AVENUE'', Num 2]), (0, [Str ''BROADWAY'', Num 1])]"
    by auto
  with k h show ?thesis by blast
qed

subsection \<open>Loading\<close>




subsection \<open>Hours and minutes\<close>




text \<open>
  Claim C6. For the table of any hour, the breakdown by minute is a list of 60 counts;
  they add up to the number of rows of that table; and the count at index \<open>i\<close> is the
  number of rows whose timestamp has minute \<open>i\<close>.
\<close>

theorem minute_histogram_counts:
  assumes "data_by_hour d h = Inr filtered"
  shows "\<exists>p counts. dt_column filtered DATE_TIME = Inr p
           \<and> hist filtered = Inr counts
           \<and> length counts = 60
           \<and> sum_list counts = length (rows filtered)
           \<and> (\<forall>i<60. counts ! i =
                 length (filter (\<lambda>r. dt_minute (cell_at (snd r) p) = Some (int i)) (rows filtered)))"
proof -
  from data_by_hour_Inr [OF assms] obtain p where
    p: "dt_column d DATE_TIME = Inr p"
    and cf: "columns filtered = columns d"
    and rf: "rows filtered = filter (\<lambda>r. dt_hour (cell_at (snd r) p) = Some h) (rows d)"
    by blast
  have time: "\<exists>t. cell_at (snd r) p = Time t" if "r \<in> set (rows filtered)" for r
    using that dt_hour_Some [of "cell_at (snd r) p" h] by (auto simp: rf)
  have pf: "dt_column filtered DATE_TIME = Inr p"
  proof -
    from dt_column_Inr [OF p] have "positions (columns filtered) DATE_TIME = [p]"
      by (simp add: cf)
    moreover have "list_all (\<lambda>r. datetimelike (cell_at (snd r) p)) (rows filtered)"
      using time by (fastforce simp: list_all_iff)
    ultimately show ?thesis by (simp add: dt_column_def)
  qed
  define minute where "minute = (\<lambda>r :: row. map_option real_of_int (dt_minute (cell_at (snd r) p)))"
  define key where "key = (\<lambda>r :: row. nat (case dt_minute (cell_at (snd r) p) of Some m \<Rightarrow> m | None \<Rightarrow> 0))"
  define counts where "counts = np_histogram (map minute (rows filtered)) 60 0 60"
  have hf: "hist filtered = Inr counts"
    by (simp add: hist_def pf counts_def minute_def)
  have len: "length counts = 60"
    by (simp add: counts_def np_histogram_def)
  have bin: "in_bin 60 0 60 i (minute r) \<longleftrightarrow> dt_minute (cell_at (snd r) p) = Some (int i)"
    and keyed: "dt_minute (cell_at (snd r) p) = Some (int i) \<longleftrightarrow> key r = i"
    and bound: "key r < 60"
    if r: "r \<in> set (rows filtered)" and i: "i < 60" for r i
  proof -
    from time [OF r] obtain t where t: "cell_at (snd r) p = Time t" by blast
    from minute_of_range [of t] have m: "0 \<le> minute_of t" "minute_of t < 60" by simp_all
    show "in_bin 60 0 60 i (minute r) \<longleftrightarrow> dt_minute (cell_at (snd r) p) = Some (int i)"
      using in_bin_minute [OF m i] by (simp add: minute_def t)
    show "dt_minute (cell_at (snd r) p) = Some (int i) \<longleftrightarrow> key r = i"
      using m by (auto simp: key_def t)
    show "key r < 60" using m by (simp add: key_def t)
  qed
  have nth: "counts ! i = length (filter (\<lambda>r. dt_minute (cell_at (snd r) p) = Some (int i)) (rows filtered))"
    and nth_key: "counts ! i = length (filter (\<lambda>r. key r = i) (rows filtered))"
    if i: "i < 60" for i
  proof -
    have "counts ! i = length (filter (in_bin 60 0 60 i) (map minute (rows filtered)))"
      using i by (simp add: counts_def np_histogram_def)
    also have "\<dots> = length (filter (\<lambda>r. in_bin 60 0 60 i (minute r)) (rows filtered))"
      by (simp add: filter_map comp_def)
    also have "filter (\<lambda>r. in_bin 60 0 60 i (minute r)) (rows filtered)
             = filter (\<lambda>r. dt_minute (cell_at (snd r) p) = Some (int i)) (rows filtered)"
      by (rule filter_cong [OF refl]) (rule bin [OF _ i])
    finally show "counts ! i =
        length (filter (\<lambda>r. dt_minute (cell_at (snd r) p) = Some (int i)) (rows filtered))" .
    moreover have "filter (\<lambda>r. dt_minute (cell_at (snd r) p) = Some (int i)) (rows filtered)
             = filter (\<lambda>r. key r = i) (rows filtered)"
      by (rule filter_cong [OF refl]) (rule keyed [OF _ i])
    ultimately show "counts ! i = length (filter (\<lambda>r. key r = i) (rows filtered))" by simp
  qed
  have "counts = map (\<lambda>i. length (filter (\<lambda>r. key r = i) (rows filtered))) [0..<60]"
    by (rule nth_equalityI) (simp_all add: len nth_key)
  moreover have "\<forall>r\<in>set (rows filtered). key r < 60"
    using bound [of _ 0] by simp
  ultimately have total: "sum_list counts = length (rows filtered)"
    using sum_length_filter_key [of "rows filtered" key 60] by simp
  from pf hf len total nth show ?thesis by blast
qed

theorem minute_histogram_counts_witness:
  "data_by_hour ex_loaded 10 =
     Inr \<lparr>columns = [''date_time'', ''latitude'', ''longitude'', ''borough''],
          rows = [(0, [Time 1577873100000000000, Num 40.7, Num (-73.9), Str ''BROOKLYN''])]\<rparr>
   \<and> (\<exists>counts. hist \<lparr>columns = [''date_time'', ''latitude'', ''longitude'', ''borough''],
          rows = [(0, [Time 1577873100000000000, Num 40.7, Num (-73.9), Str ''BROOKLYN''])]\<rparr>
          = Inr counts
        \<and> length counts = 60 \<and> sum_list counts = 1)"
proof -
  have h: "data_by_hour ex_loaded 10 =
     Inr \<lparr>columns = [''date_time'', ''latitude'', ''longitude'', ''borough''],
          rows = [(0, [Time 1577873100000000000, Num 40.7, Num (-73.9), Str ''BROOKLYN''])]\<rparr>"
    by code_simp
  from minute_histogram_counts [OF h] have
    "\<exists>counts. hist \<lparr>columns = [''date_time'', ''latitude'', ''longitude'', ''borough''],
          rows = [(0, [Time 1577873100000000000, Num 40.7, Num (-73.9), Str ''BROOKLYN''])]\<rparr>
          = Inr counts
        \<and> length counts = 60 \<and> sum_list counts = 1"
    by auto
  with h show ?thesis by blast
qed

subsection \<open>Contributing factors and vehicle types\<close>

text \<open>
  Claim C10. Whatever routine sorts, the contributing factors are the first 20, and the
  vehicle types the first 10, entries of a list of counts, sorted downwards, with one
  entry for every value that is not missing and occurs in a cell of the two columns.
  The count of a value is the sum, over the records, of the number of the record's two
  cells that hold it: a record with one of the two cells missing adds its other value
  once, and a record with both missing adds nothing. The missing value has no entry.
\<close>

theorem stacked_counts_cellwise:
  assumes kind: "sorts_asc kind"
  shows "(\<forall>out. factors kind d = Inr out \<longrightarrow>
            (\<exists>ps full. select_positions (columns d) factor_columns = Inr ps
               \<and> out = take 20 full \<and> distinct (map fst full)
               \<and> sorted_wrt (\<lambda>a b. snd b \<le> snd a) full
               \<and> (\<forall>v k. (v, k) \<in> set full \<longleftrightarrow>
                      v \<noteq> NaN \<and> 0 < k
                    \<and> k = (\<Sum>r\<leftarrow>rows d. length (filter (\<lambda>p. cell_at (snd r) p = v) ps)))))
       \<and> (\<forall>out. vehicle_types kind d = Inr out \<longrightarrow>
            (\<exists>ps full. select_positions (columns d) vehicle_type_columns = Inr ps
               \<and> out = take 10 full \<and> distinct (map fst full)
               \<and> sorted_wrt (\<lambda>a b. snd b \<le> snd a) full
               \<and> (\<forall>v k. (v, k) \<in> set full \<longleftrightarrow>
                      v \<noteq> NaN \<and> 0 < k
                    \<and> k = (\<Sum>r\<leftarrow>rows d. length (filter (\<lambda>p. cell_at (snd r) p = v) ps)))))"
proof (intro conjI allI impI)
  fix out assume "factors kind d = Inr out"
  then obtain g where g: "getitem_cols d factor_columns = Inr g"
    and out: "out = take 20 (value_counts kind (map snd (stack g)))"
    by (auto simp: factors_def split: sum.splits)
  from stacked_value_counts [OF kind g] out
  show "\<exists>ps full. select_positions (columns d) factor_columns = Inr ps
               \<and> out = take 20 full \<and> distinct (map fst full)
               \<and> sorted_wrt (\<lambda>a b. snd b \<le> snd a) full
               \<and> (\<forall>v k. (v, k) \<in> set full \<longleftrightarrow>
                      v \<noteq> NaN \<and> 0 < k
                    \<and> k = (\<Sum>r\<leftarrow>rows d. length (filter (\<lambda>p. cell_at (snd r) p = v) ps)))"
    by blast
next
  fix out assume "vehicle_types kind d = Inr out"
  then obtain g where g: "getitem_cols d vehicle_type_columns = Inr g"
    and out: "out = take 10 (value_counts kind (map snd (stack g)))"
    by (auto simp: vehicle_types_def split: sum.splits)
  from stacked_value_counts [OF kind g] out
  show "\<exists>ps full. select_positions (columns d) vehicle_type_columns = Inr ps
               \<and> out = take 10 full \<and> distinct (map fst full)
               \<and> sorted_wrt (\<lambda>a b. snd b \<le> snd a) full
               \<and> (\<forall>v k. (v, k) \<in> set full \<longleftrightarrow>
                      v \<noteq> NaN \<and> 0 < k
                    \<and> k = (\<Sum>r\<leftarrow>rows d. length (filter (\<lambda>p. cell_at (snd r) p = v) ps)))"
    by blast
qed

theorem stacked_counts_cellwise_witness:
  "sorts_asc (sort_key :: (cell \<times> nat) sorter)
   \<and> factors sort_key ex_vehicles
       = Inr [(Str ''Unspecified'', 2), (Str ''Driver Inattention'', 1)]
   \<and> vehicle_types sort_key ex_vehicles = Inr [(Str ''Sedan'', 3), (Str ''Taxi'', 1)]
   \<and> (\<exists>ps full. select_positions (columns ex_vehicles) factor_columns = Inr ps
         \<and> [(Str ''Unspecified'', 2), (Str ''Driver Inattention'', 1)] = take 20 full
         \<and> (\<forall>v k. (v, k) \<in> set full \<longleftrightarrow>
                v \<noteq> NaN \<and> 0 < k
              \<and> k = (\<Sum>r\<leftarrow>rows ex_vehicles. length (filter (\<lambda>p. cell_at (snd r) p = v) ps))))
   \<and> (\<exists>ps full. select_positions (columns ex_vehicles) vehicle_type_columns = Inr ps
         \<and> [(Str ''Sedan'', 3), (Str ''Taxi'', 1)] = take 10 full
         \<and> (\<forall>v k. (v, k) \<in> set full \<longleftrightarrow>
                v \<noteq> NaN \<and> 0 < k
              \<and> k = (\<Sum>r\<leftarrow>rows ex_vehicles. length (filter (\<lambda>p. cell_at (snd r) p = v) ps))))"
proof -
  have k: "sorts_asc (sort_key :: (cell \<times> nat) sorter)"
    by (rule sorts_asc_sort_key)
  have f: "factors sort_key ex_vehicles
       = Inr [(Str ''Unspecified'', 2), (Str ''Driver Inattention'', 1)]"
    by code_simp
  have v: "vehicle_types sort_key ex_vehicles = Inr [(Str ''Sedan'', 3), (Str ''Taxi'', 1)]"
    by code_simp
  note c = stacked_counts_cellwise [OF k, of ex_vehicles]
  from c [THEN conjunct1, THEN spec, THEN mp, OF f]
  have 1: "\<exists>ps full. select_positions (columns ex_vehicles) factor_columns = Inr ps
         \<and> [(Str ''Unspecified'', 2), (Str ''Driver Inattention'', 1)] = take 20 full
         \<and> (\<forall>v k. (v, k) \<in> set full \<longleftrightarrow>
                v \<noteq> NaN \<and> 0 < k
              \<and> k = (\<Sum>r\<leftarrow>rows ex_vehicles. length (filter (\<lambda>p. cell_at (snd r) p = v) ps)))"
    by blast
  from c [THEN conjunct2, THEN spec, THEN mp, OF v]
  have 2: "\<exists>ps full. select_positions (columns ex_vehicles) vehicle_type_columns = Inr ps
         \<and> [(Str ''Sedan'', 3), (Str ''Taxi'', 1)] = take 10 full
         \<and> (\<forall>v k. (v, k) \<in> set full \<longleftrightarrow>
                v \<noteq> NaN \<and> 0 < k
              \<and> k = (\<Sum>r\<leftarrow>rows ex_vehicles. length (filter (\<lambda>p. cell_at (snd r) p = v) ps)))"
    by blast
  from k f v 1 2 show ?thesis by (intro conjI)
qed

end
